theory Spec2Isabelle
  imports Main
begin

section \<open>Strings, errors and records\<close>

text \<open>
  A JavaScript string is a sequence of UTF-16 code units; the titles handled here contain
  code units beyond one byte (U+2018, U+2019), so a string is a list of code-unit numbers.
  \<open>js\<close> writes an ASCII literal.
\<close>

type_synonym jstring = "nat list"

definition js :: "string \<Rightarrow> jstring" where
  "js s = map of_char s"

text \<open>A thrown value: an error object with its optional \<open>code\<close> property and its message.\<close>

datatype error = Error (code: "jstring option") (message: jstring)

text \<open>
  \<open>interface VideoRecord\<close>; the two counts are optional properties. The interface
  declares them as numbers, but the type is erased when the program runs: a record that
  the fetcher or the refresher has filled holds a number, a record read from the file
  holds the text of the field, and the writer tells the two apart. A count is therefore a
  number or a text.
\<close>

datatype count_value = Num int | Str jstring

record VideoRecord =
  ID :: jstring
  Title :: jstring
  Published_At :: jstring
  Duration :: jstring
  ViewCount :: "count_value option"
  LikeCount :: "count_value option"

text \<open>
  The items of the two remote calls, with the properties the program reads. Every property
  of a response may be absent. \<open>videoId\<close> is \<open>item.id?.videoId\<close>, \<open>snippet_title\<close> is
  \<open>item.snippet?.title\<close>, \<open>snippet_publishedAt\<close> is \<open>item.snippet?.publishedAt\<close>.
\<close>

record search_item =
  videoId :: "jstring option"
  snippet_title :: "jstring option"
  snippet_publishedAt :: "jstring option"

record search_response =
  items :: "search_item list option"
  nextPageToken :: "jstring option"

record content_details =
  duration :: "jstring option"

record statistics =
  viewCount :: "jstring option"
  likeCount :: "jstring option"

record video_item =
  item_id :: "jstring option"
  contentDetails :: "content_details option"
  statistics :: "statistics option"

section \<open>The world outside the program\<close>

text \<open>
  A path of the file system is missing, unreadable (a read throws the given error) or holds
  a content. \<open>'c\<close> is the type of file contents.
\<close>

datatype 'c file_state = Missing | Unreadable error | Content 'c

text \<open>
  What a run does to the outside is recorded as a trace: each remote call with its request
  and its outcome, and each file write.
\<close>

datatype 'c event =
    SearchList jstring "jstring option" "error + search_response"
  | VideosList "jstring list" "jstring list" "error + video_item list option"
  | WriteFile jstring 'c

record 'c world =
  fs :: "jstring \<Rightarrow> 'c file_state"
  trace :: "'c event list"

text \<open>
  The libraries and the remote service are parameters of the model: the two CSV functions
  (csv-parse, csv-stringify), \<open>he.decode\<close>, the built-in \<open>Number\<close> on a string
  (\<open>None\<close> is NaN) and \<open>new Date(s).getTime()\<close> (\<open>None\<close> is NaN), and the two
  remote calls, whose answer may depend on everything that happened before (the trace),
  on the channel and page token (\<open>search.list\<close>) and on the requested parts and
  identifiers (\<open>videos.list\<close>). A remote call returns its \<open>response.data\<close> or throws.
\<close>

record 'c platform =
  csv_parse :: "'c \<Rightarrow> error + VideoRecord list"
  csv_stringify :: "VideoRecord list \<Rightarrow> 'c"
  he_decode :: "jstring \<Rightarrow> jstring"
  Number :: "jstring \<Rightarrow> int option"
  Date_getTime :: "jstring \<Rightarrow> int option"
  search_list :: "'c event list \<Rightarrow> jstring \<Rightarrow> jstring option \<Rightarrow> error + search_response"
  videos_list :: "'c event list \<Rightarrow> jstring list \<Rightarrow> jstring list \<Rightarrow> error + video_item list option"

definition ENOENT :: error where
  "ENOENT = Error (Some (js ''ENOENT'')) (js ''no such file or directory'')"

definition readFile :: "'c world \<Rightarrow> jstring \<Rightarrow> error + 'c" where
  "readFile w p = (case fs w p of
       Missing \<Rightarrow> Inl ENOENT
     | Unreadable e \<Rightarrow> Inl e
     | Content c \<Rightarrow> Inr c)"

text \<open>A write replaces the content of the path; it is taken to succeed.\<close>

definition writeFile :: "jstring \<Rightarrow> 'c \<Rightarrow> 'c world \<Rightarrow> 'c world" where
  "writeFile p c w = w\<lparr>fs := (fs w)(p := Content c), trace := trace w @ [WriteFile p c]\<rparr>"

section \<open>getNewVideos\<close>

text \<open>
  The body of \<open>for (const item of items)\<close>: an item with a truthy (non-empty) video
  identifier that is not in \<open>existingIds\<close> is pushed as a provisional record.
\<close>

definition is_new :: "jstring set \<Rightarrow> search_item \<Rightarrow> bool" where
  "is_new existingIds item =
     (case videoId item of None \<Rightarrow> False | Some v \<Rightarrow> v \<noteq> [] \<and> v \<notin> existingIds)"

definition or_empty :: "jstring option \<Rightarrow> jstring" where
  "or_empty x = (case x of None \<Rightarrow> [] | Some s \<Rightarrow> s)"

definition provisional :: "search_item \<Rightarrow> VideoRecord" where
  "provisional item =
     \<lparr>ID = or_empty (videoId item), Title = or_empty (snippet_title item),
      Published_At = or_empty (snippet_publishedAt item), Duration = [],
      ViewCount = None, LikeCount = None\<rparr>"

definition push_new :: "jstring set \<Rightarrow> search_item list \<Rightarrow> VideoRecord list" where
  "push_new existingIds its = map provisional (filter (is_new existingIds) its)"

definition items_or_empty :: "search_response \<Rightarrow> search_item list" where
  "items_or_empty r = (case items r of None \<Rightarrow> [] | Some its \<Rightarrow> its)"

text \<open>
  The \<open>do ... while (pageToken)\<close> loop. It ends when a response carries no (or an empty)
  next page token, so it may run forever: the first argument is fuel, and \<open>None\<close> is a
  loop that has not ended within it.
\<close>

fun search_loop ::
  "'c platform \<Rightarrow> nat \<Rightarrow> jstring \<Rightarrow> jstring set \<Rightarrow> jstring option \<Rightarrow> VideoRecord list \<Rightarrow>
     'c world \<Rightarrow> ((error + VideoRecord list) \<times> 'c world) option" where
  "search_loop P 0 channelId existingIds pageToken newVideos w = None"
| "search_loop P (Suc n) channelId existingIds pageToken newVideos w =
     (let r = search_list P (trace w) channelId pageToken;
          w' = w\<lparr>trace := trace w @ [SearchList channelId pageToken r]\<rparr>
      in case r of
           Inl e \<Rightarrow> Some (Inl e, w')
         | Inr resp \<Rightarrow>
             (let newVideos' = newVideos @ push_new existingIds (items_or_empty resp)
              in case nextPageToken resp of
                   None \<Rightarrow> Some (Inr newVideos', w')
                 | Some t \<Rightarrow>
                     if t = [] then Some (Inr newVideos', w')
                     else search_loop P n channelId existingIds (Some t) newVideos' w'))"

text \<open>\<open>videos.find(p)\<close> followed by an assignment to the found object's fields.\<close>

fun update_first :: "('a \<Rightarrow> bool) \<Rightarrow> ('a \<Rightarrow> 'a) \<Rightarrow> 'a list \<Rightarrow> 'a list" where
  "update_first p f [] = []"
| "update_first p f (x # xs) = (if p x then f x # xs else x # update_first p f xs)"

text \<open>\<open>Number(x) || 0\<close>: an absent value and NaN give 0.\<close>

definition count_or_zero :: "'c platform \<Rightarrow> jstring option \<Rightarrow> int" where
  "count_or_zero P x =
     (case x of None \<Rightarrow> 0 | Some s \<Rightarrow> (case Number P s of None \<Rightarrow> 0 | Some n \<Rightarrow> n))"

definition hydrate_item :: "'c platform \<Rightarrow> video_item \<Rightarrow> VideoRecord list \<Rightarrow> VideoRecord list" where
  "hydrate_item P item newVideos =
     (case contentDetails item of
        None \<Rightarrow> newVideos
      | Some cd \<Rightarrow>
          update_first (\<lambda>v. Some (ID v) = item_id item)
            (\<lambda>v. v\<lparr>Duration := or_empty (duration cd),
                   ViewCount := Some (Num (count_or_zero P (Option.bind (statistics item) viewCount))),
                   LikeCount := Some (Num (count_or_zero P (Option.bind (statistics item) likeCount)))\<rparr>)
            newVideos)"

text \<open>\<open>response.data.items?.forEach(f)\<close>.\<close>

definition for_each_item ::
  "(video_item \<Rightarrow> VideoRecord list \<Rightarrow> VideoRecord list) \<Rightarrow> video_item list option \<Rightarrow>
     VideoRecord list \<Rightarrow> VideoRecord list" where
  "for_each_item f its vs = (case its of None \<Rightarrow> vs | Some l \<Rightarrow> foldl (\<lambda>a it. f it a) vs l)"

definition hydrate_parts :: "jstring list" where
  "hydrate_parts = [js ''contentDetails'', js ''statistics'']"

function hydrate_loop ::
  "'c platform \<Rightarrow> nat \<Rightarrow> VideoRecord list \<Rightarrow> 'c world \<Rightarrow> (error + VideoRecord list) \<times> 'c world" where
  "hydrate_loop P i newVideos w =
     (if i < length newVideos then
        (let chunk = take 50 (drop i newVideos);
             r = videos_list P (trace w) hydrate_parts (map ID chunk);
             w' = w\<lparr>trace := trace w @ [VideosList hydrate_parts (map ID chunk) r]\<rparr>
         in case r of
              Inl e \<Rightarrow> (Inl e, w')
            | Inr its \<Rightarrow> hydrate_loop P (i + 50) (for_each_item (hydrate_item P) its newVideos) w')
      else (Inr newVideos, w))"
  by pat_completeness auto
termination
proof -
  have upd: "length (update_first p f xs) = length xs"
    for p and f :: "VideoRecord \<Rightarrow> VideoRecord" and xs
    by (induction xs) auto
  have step: "length (hydrate_item P it xs) = length xs" for P :: "'c platform" and it xs
    by (simp add: hydrate_item_def upd split: option.splits)
  have fold: "length (foldl (\<lambda>a it. hydrate_item P it a) xs l) = length xs"
    for P :: "'c platform" and l xs
    by (induction l arbitrary: xs) (simp_all add: step)
  have len: "length (for_each_item (hydrate_item P) its xs) = length xs"
    for P :: "'c platform" and its xs
    by (simp add: for_each_item_def fold split: option.splits)
  show ?thesis
    by (relation "measure (\<lambda>(P, i, newVideos, w). length newVideos - i)") (auto simp: len)
qed

definition getNewVideos ::
  "'c platform \<Rightarrow> nat \<Rightarrow> jstring \<Rightarrow> jstring set \<Rightarrow> 'c world \<Rightarrow>
     ((error + VideoRecord list) \<times> 'c world) option" where
  "getNewVideos P fuel channelId existingIds w =
     (case search_loop P fuel channelId existingIds None [] w of
        None \<Rightarrow> None
      | Some (Inl e, w') \<Rightarrow> Some (Inl e, w')
      | Some (Inr newVideos, w') \<Rightarrow>
          Some (if length newVideos > 0 then hydrate_loop P 0 newVideos w'
                else (Inr newVideos, w')))"

section \<open>updateExistingVideos\<close>

definition refresh_item :: "'c platform \<Rightarrow> video_item \<Rightarrow> VideoRecord list \<Rightarrow> VideoRecord list" where
  "refresh_item P item videos =
     (case statistics item of
        None \<Rightarrow> videos
      | Some st \<Rightarrow>
          update_first (\<lambda>v. Some (ID v) = item_id item)
            (\<lambda>v. v\<lparr>ViewCount := Some (Num (count_or_zero P (viewCount st))),
                   LikeCount := Some (Num (count_or_zero P (likeCount st)))\<rparr>)
            videos)"

definition refresh_parts :: "jstring list" where
  "refresh_parts = [js ''statistics'', js ''contentDetails'']"

function refresh_loop ::
  "'c platform \<Rightarrow> nat \<Rightarrow> VideoRecord list \<Rightarrow> 'c world \<Rightarrow> (error + VideoRecord list) \<times> 'c world" where
  "refresh_loop P i videos w =
     (if i < length videos then
        (let chunk = take 50 (drop i videos);
             r = videos_list P (trace w) refresh_parts (map ID chunk);
             w' = w\<lparr>trace := trace w @ [VideosList refresh_parts (map ID chunk) r]\<rparr>
         in case r of
              Inl e \<Rightarrow> (Inl e, w')
            | Inr its \<Rightarrow> refresh_loop P (i + 50) (for_each_item (refresh_item P) its videos) w')
      else (Inr videos, w))"
  by pat_completeness auto
termination
proof -
  have upd: "length (update_first p f xs) = length xs"
    for p and f :: "VideoRecord \<Rightarrow> VideoRecord" and xs
    by (induction xs) auto
  have step: "length (refresh_item P it xs) = length xs" for P :: "'c platform" and it xs
    by (simp add: refresh_item_def upd split: option.splits)
  have fold: "length (foldl (\<lambda>a it. refresh_item P it a) xs l) = length xs"
    for P :: "'c platform" and l xs
    by (induction l arbitrary: xs) (simp_all add: step)
  have len: "length (for_each_item (refresh_item P) its xs) = length xs"
    for P :: "'c platform" and its xs
    by (simp add: for_each_item_def fold split: option.splits)
  show ?thesis
    by (relation "measure (\<lambda>(P, i, videos, w). length videos - i)") (auto simp: len)
qed

definition updateExistingVideos ::
  "'c platform \<Rightarrow> VideoRecord list \<Rightarrow> 'c world \<Rightarrow> (error + VideoRecord list) \<times> 'c world" where
  "updateExistingVideos P videos w = refresh_loop P 0 videos w"

section \<open>readCsvFile\<close>

text \<open>
  Only \<open>fs.readFile\<close> is awaited inside the \<open>try\<close>: an error of the parser rejects the
  returned promise and reaches the caller without passing through the \<open>catch\<close>.
\<close>

definition readCsvFile :: "'c platform \<Rightarrow> jstring \<Rightarrow> 'c world \<Rightarrow> error + VideoRecord list" where
  "readCsvFile P filePath w =
     (case readFile w filePath of
        Inl e \<Rightarrow> if code e = Some (js ''ENOENT'') then Inr [] else Inl e
      | Inr fileContent \<Rightarrow> csv_parse P fileContent)"

section \<open>main\<close>

text \<open>
  The comparison function handed to \<open>sort\<close>; a NaN result counts as 0, as the
  language's sort reads it.
\<close>

definition compareFn :: "'c platform \<Rightarrow> VideoRecord \<Rightarrow> VideoRecord \<Rightarrow> int" where
  "compareFn P a b =
     (case (Date_getTime P (Published_At b), Date_getTime P (Published_At a)) of
        (Some tb, Some ta) \<Rightarrow> tb - ta
      | _ \<Rightarrow> 0)"

text \<open>
  \<open>Array.prototype.sort\<close> is a stable sort; it is modelled as the insertion sort that
  puts an element before the first one it does not compare greater than. Where every
  date reads as a time the comparison function is consistent, and this is the order of
  every stable sort. Where a date does not, the language leaves the order to the engine;
  the insertion order is then the engine's only on inputs like the one evaluated for C4
  below, where every comparison the engine makes returns NaN and it keeps the input as
  it is, and no other statement below relies on it.
\<close>

fun insert_sorted :: "('a \<Rightarrow> 'a \<Rightarrow> int) \<Rightarrow> 'a \<Rightarrow> 'a list \<Rightarrow> 'a list" where
  "insert_sorted c x [] = [x]"
| "insert_sorted c x (y # ys) = (if c x y \<le> 0 then x # y # ys else y # insert_sorted c x ys)"

definition js_sort :: "('a \<Rightarrow> 'a \<Rightarrow> int) \<Rightarrow> 'a list \<Rightarrow> 'a list" where
  "js_sort c xs = foldr (insert_sorted c) xs []"

definition allVideos :: "'c platform \<Rightarrow> VideoRecord list \<Rightarrow> VideoRecord list \<Rightarrow> VideoRecord list" where
  "allVideos P updatedExistingVideos newVideos =
     js_sort (compareFn P) (updatedExistingVideos @ newVideos)"

text \<open>The replacement of \<open>/[\u2018\u2019]/g\<close> by the apostrophe.\<close>

definition straighten_quotes :: "jstring \<Rightarrow> jstring" where
  "straighten_quotes s = map (\<lambda>c. if c = 0x2018 \<or> c = 0x2019 then 0x27 else c) s"

text \<open>
  \<open>.replace(/"([^"]+)"/g, "'$1'")\<close>, scanning from the left: at a double quote (0x22)
  followed by a non-empty run without double quotes and then a double quote, the match is
  replaced and the scan goes on after it; anywhere else the code unit is copied.
\<close>

function requote :: "jstring \<Rightarrow> jstring" where
  "requote [] = []"
| "requote (c # s) =
     (let inner = takeWhile (\<lambda>x. x \<noteq> 0x22) s; rest = dropWhile (\<lambda>x. x \<noteq> 0x22) s
      in if c = 0x22 \<and> inner \<noteq> [] \<and> rest \<noteq> []
         then 0x27 # inner @ 0x27 # requote (tl rest)
         else c # requote s)"
  by pat_completeness auto
termination
proof -
  have "length (dropWhile (\<lambda>x. x \<noteq> 0x22) s) - Suc 0 < Suc (length s)" for s :: jstring
    using length_dropWhile_le [of "\<lambda>x. x \<noteq> 0x22" s] by simp
  then show ?thesis
    by (relation "measure length") auto
qed

definition normalize_title :: "'c platform \<Rightarrow> jstring \<Rightarrow> jstring" where
  "normalize_title P t = requote (straighten_quotes (he_decode P t))"

definition processedVideos :: "'c platform \<Rightarrow> VideoRecord list \<Rightarrow> VideoRecord list" where
  "processedVideos P vs = map (\<lambda>video. video\<lparr>Title := normalize_title P (Title video)\<rparr>) vs"

definition channelId_const :: jstring where
  "channelId_const = js ''UC7IcJI8PUf5Z3zKxnZvTBog''"

definition filePath_const :: jstring where
  "filePath_const = js ''videos.txt''"

text \<open>
  The body of the \<open>try\<close> of \<open>main\<close>: the error that reaches the \<open>catch\<close>, or the
  records that were saved, with the world after it. \<open>None\<close>: the listing loop did not end.
  Console output is not part of the model.
\<close>

definition main_try ::
  "'c platform \<Rightarrow> nat \<Rightarrow> 'c world \<Rightarrow> ((error + VideoRecord list) \<times> 'c world) option" where
  "main_try P fuel w =
     (case readCsvFile P filePath_const w of
        Inl e \<Rightarrow> Some (Inl e, w)
      | Inr existingVideos \<Rightarrow>
          (case getNewVideos P fuel channelId_const (set (map ID existingVideos)) w of
             None \<Rightarrow> None
           | Some (Inl e, w1) \<Rightarrow> Some (Inl e, w1)
           | Some (Inr newVideos, w1) \<Rightarrow>
               (case updateExistingVideos P existingVideos w1 of
                  (Inl e, w2) \<Rightarrow> Some (Inl e, w2)
                | (Inr updatedExistingVideos, w2) \<Rightarrow>
                    (let processed = processedVideos P (allVideos P updatedExistingVideos newVideos);
                         csvString = csv_stringify P processed
                     in Some (Inr processed, writeFile filePath_const csvString w2)))))"

text \<open>\<open>main\<close> catches every error and only logs it: what remains is the world.\<close>

definition main :: "'c platform \<Rightarrow> nat \<Rightarrow> 'c world \<Rightarrow> 'c world option" where
  "main P fuel w = map_option snd (main_try P fuel w)"

section \<open>Reading the trace\<close>

text \<open>The events that a step from world \<open>w\<close> to world \<open>w'\<close> has added.\<close>

definition new_events :: "'c world \<Rightarrow> 'c world \<Rightarrow> 'c event list" where
  "new_events w w' = drop (length (trace w)) (trace w')"

fun event_request :: "'c event \<Rightarrow> jstring list list" where
  "event_request (VideosList part ids r) = [ids]"
| "event_request _ = []"

fun event_items :: "'c event \<Rightarrow> video_item list" where
  "event_items (VideosList part ids (Inr (Some its))) = its"
| "event_items _ = []"

fun event_listed :: "'c event \<Rightarrow> search_item list" where
  "event_listed (SearchList ch tok (Inr resp)) = items_or_empty resp"
| "event_listed _ = []"

fun event_write :: "'c event \<Rightarrow> (jstring \<times> 'c) list" where
  "event_write (WriteFile p c) = [(p, c)]"
| "event_write _ = []"

text \<open>The identifier lists of the detail (\<open>videos.list\<close>) requests of a trace, in order.\<close>

definition detail_requests :: "'c event list \<Rightarrow> jstring list list" where
  "detail_requests tr = concat (map event_request tr)"

text \<open>The items that the detail calls of a trace returned, in order.\<close>

definition returned_items :: "'c event list \<Rightarrow> video_item list" where
  "returned_items tr = concat (map event_items tr)"

text \<open>The items that the listing (\<open>search.list\<close>) calls of a trace returned, in order.\<close>

definition listed_items :: "'c event list \<Rightarrow> search_item list" where
  "listed_items tr = concat (map event_listed tr)"

text \<open>The non-empty video identifiers among listed items, in order.\<close>

definition listed_ids :: "search_item list \<Rightarrow> jstring list" where
  "listed_ids its = filter (\<lambda>v. v \<noteq> []) (List.map_filter videoId its)"

text \<open>The file writes of a trace, in order.\<close>

definition file_writes :: "'c event list \<Rightarrow> (jstring \<times> 'c) list" where
  "file_writes tr = concat (map event_write tr)"

section \<open>A concrete platform\<close>

text \<open>
  A stand-in for \<open>he.decode\<close>, used only to evaluate the program on the titles
  below: a named reference \<open>&name;\<close> of the table is replaced by its character, in
  one pass from the left; all other text is copied. It is not the library (no numeric
  references, no other names), and no statement below assumes that the decoder equals it.
\<close>

definition entity_table :: "(jstring \<times> jstring) list" where
  "entity_table =
     [(js ''amp'', [0x26]), (js ''lt'', [0x3C]), (js ''gt'', [0x3E]), (js ''quot'', [0x22]),
      (js ''apos'', [0x27]), (js ''lsquo'', [0x2018]), (js ''rsquo'', [0x2019])]"

function decode_entities :: "jstring \<Rightarrow> jstring" where
  "decode_entities [] = []"
| "decode_entities (c # s) =
     (let name = takeWhile (\<lambda>x. x \<noteq> 0x3B) s; rest = dropWhile (\<lambda>x. x \<noteq> 0x3B) s
      in if c = 0x26 \<and> rest \<noteq> [] \<and> map_of entity_table name \<noteq> None
         then the (map_of entity_table name) @ decode_entities (tl rest)
         else c # decode_entities s)"
  by pat_completeness auto
termination
proof -
  have "length (dropWhile (\<lambda>x. x \<noteq> 0x3B) s) - Suc 0 < Suc (length s)" for s :: jstring
    using length_dropWhile_le [of "\<lambda>x. x \<noteq> 0x3B" s] by simp
  then show ?thesis
    by (relation "measure length") auto
qed

text \<open>
  A stand-in for \<open>Number\<close>, used only to evaluate the program on short strings of
  decimal digits (the empty string is 0); NaN elsewhere.
\<close>

definition decimal :: "jstring \<Rightarrow> int option" where
  "decimal s =
     (if \<forall>c \<in> set s. 48 \<le> c \<and> c \<le> 57
      then Some (foldl (\<lambda>a c. 10 * a + int (c - 48)) 0 s) else None)"

text \<open>The time values of the three dates that the evaluations below use.\<close>

definition date_table :: "(jstring \<times> int) list" where
  "date_table =
     [(js ''2020-01-01T00:00:00Z'', 1577836800000),
      (js ''2021-01-01T00:00:00Z'', 1609459200000),
      (js ''2022-01-01T00:00:00Z'', 1640995200000)]"

text \<open>
  The text that the writer puts into the file for a count: nothing for an absent count,
  the decimal digits for a number, the text itself for a text.
\<close>

function digits_of :: "nat \<Rightarrow> jstring" where
  "digits_of n = (if n < 10 then [48 + n] else digits_of (n div 10) @ [48 + n mod 10])"
  by pat_completeness auto
termination
  by (relation "measure (\<lambda>n. n)") auto

definition number_text :: "int \<Rightarrow> jstring" where
  "number_text i = (if i < 0 then 45 # digits_of (nat (- i)) else digits_of (nat i))"

definition text_of_count :: "count_value option \<Rightarrow> jstring" where
  "text_of_count c =
     (case c of None \<Rightarrow> [] | Some (Num i) \<Rightarrow> number_text i | Some (Str t) \<Rightarrow> t)"

text \<open>A row as the parser returns it: every field of the row is a text.\<close>

definition as_read :: "VideoRecord \<Rightarrow> VideoRecord" where
  "as_read v = v\<lparr>ViewCount := Some (Str (text_of_count (ViewCount v))),
                 LikeCount := Some (Str (text_of_count (LikeCount v)))\<rparr>"

text \<open>
  A platform around a given remote service. Its file content is the list of rows as the
  program hands them to the writer, numbers and texts kept apart as the writer's quoting
  keeps them apart; the parser returns each row with its counts as texts.
\<close>

definition rows_platform ::
  "(jstring option \<Rightarrow> error + search_response) \<Rightarrow>
   (jstring list \<Rightarrow> error + video_item list option) \<Rightarrow> VideoRecord list platform" where
  "rows_platform search details =
     \<lparr>csv_parse = (\<lambda>rows. Inr (map as_read rows)), csv_stringify = (\<lambda>rows. rows),
      he_decode = decode_entities,
      Number = decimal, Date_getTime = map_of date_table,
      search_list = (\<lambda>tr ch tok. search tok), videos_list = (\<lambda>tr part ids. details ids)\<rparr>"

text \<open>With every date readable, the comparison is the difference of two keys.\<close>

definition time_key :: "'c platform \<Rightarrow> VideoRecord \<Rightarrow> int" where
  "time_key P v = - the (Date_getTime P (Published_At v))"

text \<open>A returned detail item for identifier \<open>k\<close> that carries statistics.\<close>

definition with_statistics :: "jstring \<Rightarrow> video_item \<Rightarrow> bool" where
  "with_statistics k it = (item_id it = Some k \<and> statistics it \<noteq> None)"

text \<open>
  What the refresher and the fetcher make of one record when the detail call answers from
  a fixed catalog (identifier to item): the assignments of \<open>refresh_item\<close> and of
  \<open>hydrate_item\<close> with the catalog's item of the record.
\<close>

definition refreshed_by :: "'c platform \<Rightarrow> (jstring \<Rightarrow> video_item option) \<Rightarrow> VideoRecord \<Rightarrow> VideoRecord" where
  "refreshed_by P catalog v =
     (case catalog (ID v) of
        None \<Rightarrow> v
      | Some it \<Rightarrow>
          (case statistics it of
             None \<Rightarrow> v
           | Some st \<Rightarrow> v\<lparr>ViewCount := Some (Num (count_or_zero P (viewCount st))),
                          LikeCount := Some (Num (count_or_zero P (likeCount st)))\<rparr>))"

definition hydrated_by :: "'c platform \<Rightarrow> (jstring \<Rightarrow> video_item option) \<Rightarrow> VideoRecord \<Rightarrow> VideoRecord" where
  "hydrated_by P catalog v =
     (case catalog (ID v) of
        None \<Rightarrow> v
      | Some it \<Rightarrow>
          (case contentDetails it of
             None \<Rightarrow> v
           | Some cd \<Rightarrow>
               v\<lparr>Duration := or_empty (duration cd),
                 ViewCount := Some (Num (count_or_zero P (Option.bind (statistics it) viewCount))),
                 LikeCount := Some (Num (count_or_zero P (Option.bind (statistics it) likeCount)))\<rparr>))"

text \<open>
  A record with identifier \<open>k\<close> that is still as the listing created it: no duration,
  no counts.
\<close>

definition pending :: "jstring \<Rightarrow> VideoRecord list \<Rightarrow> bool" where
  "pending k vs = (\<forall>v \<in> set vs. ID v = k \<longrightarrow> Duration v = [] \<and> ViewCount v = None \<and> LikeCount v = None)"

section \<open>A scenario\<close>

text \<open>
  One stored record \<open>a\<close>; the remote lists \<open>b\<close> (newer) and \<open>a\<close>; the detail
  call knows \<open>a\<close> and \<open>b\<close>, and nothing about \<open>c\<close>.
\<close>

definition video_a :: VideoRecord where
  "video_a = \<lparr>ID = js ''a'', Title = js ''A'', Published_At = js ''2020-01-01T00:00:00Z'',
     Duration = js ''PT1M'', ViewCount = Some (Num 5), LikeCount = Some (Num 1)\<rparr>"

definition video_b :: VideoRecord where
  "video_b = \<lparr>ID = js ''b'', Title = js ''B'', Published_At = js ''2021-01-01T00:00:00Z'',
     Duration = js ''PT2M'', ViewCount = Some (Num 10), LikeCount = Some (Num 2)\<rparr>"

definition scenario_search :: "jstring option \<Rightarrow> error + search_response" where
  "scenario_search tok =
     Inr \<lparr>items = Some
            [\<lparr>videoId = Some (js ''b''), snippet_title = Some (js ''B''),
              snippet_publishedAt = Some (js ''2021-01-01T00:00:00Z'')\<rparr>,
             \<lparr>videoId = Some (js ''a''), snippet_title = Some (js ''A''),
              snippet_publishedAt = Some (js ''2020-01-01T00:00:00Z'')\<rparr>],
          nextPageToken = None\<rparr>"

definition scenario_catalog :: "(jstring \<times> video_item) list" where
  "scenario_catalog =
     [(js ''a'', \<lparr>item_id = Some (js ''a''),
         contentDetails = Some \<lparr>duration = Some (js ''PT1M'')\<rparr>,
         statistics = Some \<lparr>viewCount = Some (js ''7''), likeCount = Some (js ''1'')\<rparr>\<rparr>),
      (js ''b'', \<lparr>item_id = Some (js ''b''),
         contentDetails = Some \<lparr>duration = Some (js ''PT2M'')\<rparr>,
         statistics = Some \<lparr>viewCount = Some (js ''10''), likeCount = Some (js ''2'')\<rparr>\<rparr>)]"

definition scenario_details :: "jstring list \<Rightarrow> error + video_item list option" where
  "scenario_details ids = Inr (Some (List.map_filter (map_of scenario_catalog) ids))"

definition scenario_platform :: "VideoRecord list platform" where
  "scenario_platform = rows_platform scenario_search scenario_details"

definition scenario_world :: "VideoRecord list world" where
  "scenario_world =
     \<lparr>fs = (\<lambda>p. if p = filePath_const then Content [video_a] else Missing), trace = []\<rparr>"

definition video_c :: VideoRecord where
  "video_c = \<lparr>ID = js ''c'', Title = js ''C'', Published_At = js ''2022-01-01T00:00:00Z'',
     Duration = js ''PT3M'', ViewCount = Some (Num 3), LikeCount = Some (Num 0)\<rparr>"

definition missing_world :: "VideoRecord list world" where
  "missing_world = \<lparr>fs = (\<lambda>p. Missing), trace = []\<rparr>"

definition EACCES :: error where
  "EACCES = Error (Some (js ''EACCES'')) (js ''permission denied'')"

definition denied_world :: "VideoRecord list world" where
  "denied_world = \<lparr>fs = (\<lambda>p. Unreadable EACCES), trace = []\<rparr>"

definition quota_error :: error where
  "quota_error = Error None (js ''quotaExceeded'')"

definition failing_details :: "jstring list \<Rightarrow> error + video_item list option" where
  "failing_details ids = Inl quota_error"

definition statistics_only :: "jstring list \<Rightarrow> error + video_item list option" where
  "statistics_only ids =
     Inr (Some [\<lparr>item_id = Some (js ''b''), contentDetails = None,
        statistics = Some \<lparr>viewCount = Some (js ''10''), likeCount = Some (js ''2'')\<rparr>\<rparr>])"

text \<open>The content of the dataset file.\<close>

definition saved_file :: "'c world \<Rightarrow> 'c file_state" where
  "saved_file w = fs w filePath_const"

text \<open>A listing that shows \<open>b\<close> on each of its two pages.\<close>

definition item_b :: search_item where
  "item_b = \<lparr>videoId = Some (js ''b''), snippet_title = Some (js ''B''),
     snippet_publishedAt = Some (js ''2021-01-01T00:00:00Z'')\<rparr>"

definition dup_search :: "jstring option \<Rightarrow> error + search_response" where
  "dup_search tok =
     (case tok of
        None \<Rightarrow> Inr \<lparr>items = Some [item_b], nextPageToken = Some (js ''p2'')\<rparr>
      | Some t \<Rightarrow> Inr \<lparr>items = Some [item_b], nextPageToken = None\<rparr>)"

text \<open>
  The record that the listing loop creates for an item \<open>y\<close> without a publication
  date: its \<open>Published At\<close> is the empty string.
\<close>

definition video_y :: VideoRecord where
  "video_y = provisional \<lparr>videoId = Some (js ''y''), snippet_title = Some (js ''Y''),
     snippet_publishedAt = None\<rparr>"

text \<open>A detail call that returns \<open>a\<close> with a changed duration and its statistics.\<close>

definition changed_duration_item :: video_item where
  "changed_duration_item =
     \<lparr>item_id = Some (js ''a''), contentDetails = Some \<lparr>duration = Some (js ''PT9M'')\<rparr>,
      statistics = Some \<lparr>viewCount = Some (js ''7''), likeCount = Some (js ''1'')\<rparr>\<rparr>"

definition changed_duration :: "jstring list \<Rightarrow> error + video_item list option" where
  "changed_duration ids = Inr (Some [changed_duration_item])"

text \<open>
  A listing with one video whose title is \<open>""a"b"\<close>, and a detail call that knows
  this video.
\<close>

definition quoted_title :: jstring where
  "quoted_title = [0x22, 0x22, 0x61, 0x22, 0x62, 0x22]"

definition quoted_search :: "jstring option \<Rightarrow> error + search_response" where
  "quoted_search tok =
     Inr \<lparr>items = Some [\<lparr>videoId = Some (js ''q''), snippet_title = Some quoted_title,
              snippet_publishedAt = Some (js ''2020-01-01T00:00:00Z'')\<rparr>],
          nextPageToken = None\<rparr>"

definition quoted_item :: video_item where
  "quoted_item =
     \<lparr>item_id = Some (js ''q''), contentDetails = Some \<lparr>duration = Some (js ''PT5M'')\<rparr>,
      statistics = Some \<lparr>viewCount = Some (js ''3''), likeCount = Some (js ''2'')\<rparr>\<rparr>"

definition quoted_details :: "jstring list \<Rightarrow> error + video_item list option" where
  "quoted_details ids = Inr (Some (List.map_filter (map_of [(js ''q'', quoted_item)]) ids))"

definition video_q :: "jstring \<Rightarrow> VideoRecord" where
  "video_q t = \<lparr>ID = js ''q'', Title = t, Published_At = js ''2020-01-01T00:00:00Z'',
     Duration = js ''PT5M'', ViewCount = Some (Num 3), LikeCount = Some (Num 2)\<rparr>"

section \<open>Title normalization\<close>








section \<open>The loops and their traces\<close>

declare hydrate_loop.simps [simp del] refresh_loop.simps [simp del] digits_of.simps [simp del]

lemma length_update_first: "length (update_first p f xs) = length xs"
  by (induction xs) auto

lemma for_each_item_foldl:
  "for_each_item f its vs = foldl (\<lambda>a it. f it a) vs (event_items (VideosList part ids (Inr its)))"
  by (cases its) (simp_all add: for_each_item_def)

lemma hydrate_loop_run:
  "hydrate_loop P i vs w = (r, w') \<Longrightarrow>
   \<exists>new. w' = w\<lparr>trace := trace w @ new\<rparr> \<and>
     (\<forall>ids \<in> set (detail_requests new). 0 < length ids \<and> length ids \<le> 50) \<and>
     listed_items new = [] \<and> file_writes new = [] \<and>
     (\<forall>vs'. r = Inr vs' \<longrightarrow>
        vs' = foldl (\<lambda>a it. hydrate_item P it a) vs (returned_items new))"
proof (induction P i vs w arbitrary: r w' rule: hydrate_loop.induct)
  case (1 P i vs w)
  show ?case
  proof (cases "i < length vs")
    case False
    with "1.prems" have "r = Inr vs" and "w' = w"
      by (simp_all add: hydrate_loop.simps [of P i vs w])
    then show ?thesis
      by (intro exI [of _ "[]"])
        (simp add: detail_requests_def listed_items_def file_writes_def returned_items_def)
  next
    case True
    define chunk where "chunk = take 50 (drop i vs)"
    define resp where "resp = videos_list P (trace w) hydrate_parts (map ID chunk)"
    define ev :: "'a event" where "ev = VideosList hydrate_parts (map ID chunk) resp"
    define w1 where "w1 = w\<lparr>trace := trace w @ [ev]\<rparr>"
    have len: "0 < length (map ID chunk) \<and> length (map ID chunk) \<le> 50"
      using True by (simp add: chunk_def)
    have unfold: "hydrate_loop P i vs w =
        (case resp of Inl e \<Rightarrow> (Inl e, w1)
         | Inr its \<Rightarrow> hydrate_loop P (i + 50) (for_each_item (hydrate_item P) its vs) w1)"
      unfolding w1_def ev_def resp_def chunk_def using True
      by (simp add: hydrate_loop.simps [of P i vs w] Let_def)
    show ?thesis
    proof (cases resp)
      case (Inl e)
      with "1.prems" unfold have "r = Inl e" and "w' = w1"
        by simp_all
      then show ?thesis
        using len
        by (intro exI [of _ "[ev]"])
          (simp add: w1_def ev_def Inl detail_requests_def listed_items_def
            file_writes_def returned_items_def)
    next
      case (Inr its)
      with "1.prems" unfold
      have step: "hydrate_loop P (i + 50) (for_each_item (hydrate_item P) its vs) w1 = (r, w')"
        by simp
      have w1: "w1 = w\<lparr>trace := trace w @ [VideosList hydrate_parts (map ID chunk) resp]\<rparr>"
        by (simp add: w1_def ev_def)
      from "1.IH" [OF True chunk_def resp_def w1 Inr step]
      obtain new where new: "w' = w1\<lparr>trace := trace w1 @ new\<rparr>"
        "\<forall>ids \<in> set (detail_requests new). 0 < length ids \<and> length ids \<le> 50"
        "listed_items new = []" "file_writes new = []"
        "\<forall>vs'. r = Inr vs' \<longrightarrow>
           vs' = foldl (\<lambda>a it. hydrate_item P it a)
                   (for_each_item (hydrate_item P) its vs) (returned_items new)"
        by blast
      have items: "for_each_item (hydrate_item P) its vs =
          foldl (\<lambda>a it. hydrate_item P it a) vs (event_items ev)"
        unfolding ev_def Inr by (rule for_each_item_foldl)
      show ?thesis
        using new len
        by (intro exI [of _ "ev # new"])
          (simp add: w1_def detail_requests_def listed_items_def file_writes_def
            returned_items_def items, simp add: ev_def)
    qed
  qed
qed

lemma refresh_loop_run:
  "refresh_loop P i vs w = (r, w') \<Longrightarrow>
   \<exists>new. w' = w\<lparr>trace := trace w @ new\<rparr> \<and>
     (\<forall>ids \<in> set (detail_requests new). 0 < length ids \<and> length ids \<le> 50) \<and>
     listed_items new = [] \<and> file_writes new = [] \<and>
     (\<forall>vs'. r = Inr vs' \<longrightarrow>
        vs' = foldl (\<lambda>a it. refresh_item P it a) vs (returned_items new))"
proof (induction P i vs w arbitrary: r w' rule: refresh_loop.induct)
  case (1 P i vs w)
  show ?case
  proof (cases "i < length vs")
    case False
    with "1.prems" have "r = Inr vs" and "w' = w"
      by (simp_all add: refresh_loop.simps [of P i vs w])
    then show ?thesis
      by (intro exI [of _ "[]"])
        (simp add: detail_requests_def listed_items_def file_writes_def returned_items_def)
  next
    case True
    define chunk where "chunk = take 50 (drop i vs)"
    define resp where "resp = videos_list P (trace w) refresh_parts (map ID chunk)"
    define ev :: "'a event" where "ev = VideosList refresh_parts (map ID chunk) resp"
    define w1 where "w1 = w\<lparr>trace := trace w @ [ev]\<rparr>"
    have len: "0 < length (map ID chunk) \<and> length (map ID chunk) \<le> 50"
      using True by (simp add: chunk_def)
    have unfold: "refresh_loop P i vs w =
        (case resp of Inl e \<Rightarrow> (Inl e, w1)
         | Inr its \<Rightarrow> refresh_loop P (i + 50) (for_each_item (refresh_item P) its vs) w1)"
      unfolding w1_def ev_def resp_def chunk_def using True
      by (simp add: refresh_loop.simps [of P i vs w] Let_def)
    show ?thesis
    proof (cases resp)
      case (Inl e)
      with "1.prems" unfold have "r = Inl e" and "w' = w1"
        by simp_all
      then show ?thesis
        using len
        by (intro exI [of _ "[ev]"])
          (simp add: w1_def ev_def Inl detail_requests_def listed_items_def
            file_writes_def returned_items_def)
    next
      case (Inr its)
      with "1.prems" unfold
      have step: "refresh_loop P (i + 50) (for_each_item (refresh_item P) its vs) w1 = (r, w')"
        by simp
      have w1: "w1 = w\<lparr>trace := trace w @ [VideosList refresh_parts (map ID chunk) resp]\<rparr>"
        by (simp add: w1_def ev_def)
      from "1.IH" [OF True chunk_def resp_def w1 Inr step]
      obtain new where new: "w' = w1\<lparr>trace := trace w1 @ new\<rparr>"
        "\<forall>ids \<in> set (detail_requests new). 0 < length ids \<and> length ids \<le> 50"
        "listed_items new = []" "file_writes new = []"
        "\<forall>vs'. r = Inr vs' \<longrightarrow>
           vs' = foldl (\<lambda>a it. refresh_item P it a)
                   (for_each_item (refresh_item P) its vs) (returned_items new)"
        by blast
      have items: "for_each_item (refresh_item P) its vs =
          foldl (\<lambda>a it. refresh_item P it a) vs (event_items ev)"
        unfolding ev_def Inr by (rule for_each_item_foldl)
      show ?thesis
        using new len
        by (intro exI [of _ "ev # new"])
          (simp add: w1_def detail_requests_def listed_items_def file_writes_def
            returned_items_def items, simp add: ev_def)
    qed
  qed
qed


lemma new_events_append [simp]: "new_events w (w\<lparr>trace := trace w @ new\<rparr>) = new"
  by (simp add: new_events_def)

lemma push_new_append:
  "push_new known (xs @ ys) = push_new known xs @ push_new known ys"
  by (simp add: push_new_def)

lemma search_loop_run:
  "search_loop P n ch known tok acc w = Some (r, w') \<Longrightarrow>
   \<exists>new. w' = w\<lparr>trace := trace w @ new\<rparr> \<and>
     detail_requests new = [] \<and> returned_items new = [] \<and> file_writes new = [] \<and>
     (\<forall>vs. r = Inr vs \<longrightarrow> vs = acc @ push_new known (listed_items new))"
proof (induction n arbitrary: tok acc w)
  case 0
  then show ?case by simp
next
  case (Suc n)
  define resp where "resp = search_list P (trace w) ch tok"
  define ev :: "'a event" where "ev = SearchList ch tok resp"
  define w1 where "w1 = w\<lparr>trace := trace w @ [ev]\<rparr>"
  show ?case
  proof (cases resp)
    case (Inl e)
    with Suc.prems have "r = Inl e" and "w' = w1"
      by (simp_all add: Let_def resp_def w1_def ev_def)
    then show ?thesis
      by (intro exI [of _ "[ev]"])
        (simp add: w1_def ev_def Inl detail_requests_def listed_items_def
          file_writes_def returned_items_def)
  next
    case (Inr page)
    define acc1 where "acc1 = acc @ push_new known (items_or_empty page)"
    have listed: "listed_items [ev] = items_or_empty page"
      by (simp add: listed_items_def ev_def Inr)
    have none: "detail_requests [ev] = []" "returned_items [ev] = []" "file_writes [ev] = []"
      by (simp_all add: detail_requests_def returned_items_def file_writes_def ev_def)
    show ?thesis
    proof (cases "\<exists>t. nextPageToken page = Some t \<and> t \<noteq> []")
      case False
      with Suc.prems Inr have "r = Inr acc1" and "w' = w1"
        by (auto simp: Let_def resp_def [symmetric] w1_def ev_def acc1_def
            split: option.splits if_splits)
      then show ?thesis
        using listed none
        by (intro exI [of _ "[ev]"]) (simp add: w1_def acc1_def)
    next
      case True
      then obtain t where t: "nextPageToken page = Some t" "t \<noteq> []"
        by blast
      with Suc.prems Inr have "search_loop P n ch known (Some t) acc1 w1 = Some (r, w')"
        by (simp add: Let_def resp_def [symmetric] w1_def ev_def acc1_def)
      from Suc.IH [OF this]
      obtain new where new: "w' = w1\<lparr>trace := trace w1 @ new\<rparr>"
        "detail_requests new = []" "returned_items new = []" "file_writes new = []"
        "\<forall>vs. r = Inr vs \<longrightarrow> vs = acc1 @ push_new known (listed_items new)"
        by blast
      have "listed_items (ev # new) = items_or_empty page @ listed_items new"
        using listed by (simp add: listed_items_def)
      moreover have "detail_requests (ev # new) = []" "returned_items (ev # new) = []"
        "file_writes (ev # new) = []"
        using none new(2-4) by (simp_all add: detail_requests_def returned_items_def file_writes_def)
      ultimately show ?thesis
        using new(1,5)
        by (intro exI [of _ "ev # new"]) (simp add: w1_def acc1_def push_new_append)
    qed
  qed
qed

lemma update_first_nth_other:
  "i < length xs \<Longrightarrow> \<not> p (xs ! i) \<Longrightarrow> update_first p f xs ! i = xs ! i"
  by (induction xs arbitrary: i) (auto simp: nth_Cons')

lemma map_update_first: "(\<And>x. g (f x) = g x) \<Longrightarrow> map g (update_first p f xs) = map g xs"
  by (induction xs) auto

lemma set_update_first: "set (update_first p f xs) \<subseteq> set xs \<union> f ` {x \<in> set xs. p x}"
  by (induction xs) auto

lemma map_ID_hydrate_item: "map ID (hydrate_item P it vs) = map ID vs"
  by (simp add: hydrate_item_def map_update_first split: option.splits)

lemma map_ID_refresh_item: "map ID (refresh_item P it vs) = map ID vs"
  by (simp add: refresh_item_def map_update_first split: option.splits)

lemma map_ID_hydrate_items: "map ID (foldl (\<lambda>a it. hydrate_item P it a) vs its) = map ID vs"
  by (induction its arbitrary: vs) (simp_all add: map_ID_hydrate_item)

lemma map_ID_refresh_items: "map ID (foldl (\<lambda>a it. refresh_item P it a) vs its) = map ID vs"
  by (induction its arbitrary: vs) (simp_all add: map_ID_refresh_item)

lemma trace_append:
  "detail_requests (a @ b) = detail_requests a @ detail_requests b"
  "returned_items (a @ b) = returned_items a @ returned_items b"
  "listed_items (a @ b) = listed_items a @ listed_items b"
  "file_writes (a @ b) = file_writes a @ file_writes b"
  by (simp_all add: detail_requests_def returned_items_def listed_items_def file_writes_def)

lemma getNewVideos_run:
  assumes "getNewVideos P fuel ch known w = Some (r, w')"
  shows "\<exists>new. w' = w\<lparr>trace := trace w @ new\<rparr> \<and>
     (\<forall>ids \<in> set (detail_requests new). 0 < length ids \<and> length ids \<le> 50) \<and>
     file_writes new = [] \<and>
     (\<forall>vs. r = Inr vs \<longrightarrow>
        vs = foldl (\<lambda>a it. hydrate_item P it a) (push_new known (listed_items new))
               (returned_items new) \<and>
        (vs = [] \<longrightarrow> detail_requests new = []))"
proof -
  from assms obtain r1 w1 where s: "search_loop P fuel ch known None [] w = Some (r1, w1)"
    by (auto simp: getNewVideos_def split: option.splits)
  from search_loop_run [OF s]
  obtain new1 where new1: "w1 = w\<lparr>trace := trace w @ new1\<rparr>"
    "detail_requests new1 = []" "returned_items new1 = []" "file_writes new1 = []"
    "\<forall>vs. r1 = Inr vs \<longrightarrow> vs = [] @ push_new known (listed_items new1)"
    by blast
  show ?thesis
  proof (cases r1)
    case (Inl e)
    with assms s have "r = Inl e" and "w' = w1"
      by (simp_all add: getNewVideos_def)
    then show ?thesis
      using new1 by (intro exI [of _ new1]) simp
  next
    case (Inr vs0)
    then have vs0: "vs0 = push_new known (listed_items new1)"
      using new1(5) by simp
    show ?thesis
    proof (cases "vs0 = []")
      case True
      with assms s Inr have "r = Inr []" and "w' = w1"
        by (simp_all add: getNewVideos_def)
      then show ?thesis
        using new1(1-4) vs0 True by (intro exI [of _ new1]) simp
    next
      case False
      with assms s Inr have h: "hydrate_loop P 0 vs0 w1 = (r, w')"
        by (simp add: getNewVideos_def)
      from hydrate_loop_run [OF h]
      obtain new2 where new2: "w' = w1\<lparr>trace := trace w1 @ new2\<rparr>"
        "\<forall>ids \<in> set (detail_requests new2). 0 < length ids \<and> length ids \<le> 50"
        "listed_items new2 = []" "file_writes new2 = []"
        "\<forall>vs'. r = Inr vs' \<longrightarrow>
           vs' = foldl (\<lambda>a it. hydrate_item P it a) vs0 (returned_items new2)"
        by blast
      have nonempty: "foldl (\<lambda>a it. hydrate_item P it a) vs0 its \<noteq> []" for its
        using False map_ID_hydrate_items [of P vs0 its] by auto
      show ?thesis
        using new1(1-4) new2 vs0 nonempty nonempty [THEN not_sym]
        by (intro exI [of _ "new1 @ new2"]) (auto simp: trace_append)
    qed
  qed
qed

lemma refresh_items_nth_unreturned:
  "i < length vs \<Longrightarrow> \<forall>it \<in> set its. item_id it \<noteq> Some (ID (vs ! i)) \<Longrightarrow>
   foldl (\<lambda>a it. refresh_item P it a) vs its ! i = vs ! i"
proof (induction its arbitrary: vs)
  case Nil
  then show ?case by simp
next
  case (Cons it its)
  let ?vs1 = "refresh_item P it vs"
  have len: "length ?vs1 = length vs"
    using map_ID_refresh_item [of P it vs] by (metis length_map)
  have same: "?vs1 ! i = vs ! i"
    using Cons.prems
    by (auto simp: refresh_item_def update_first_nth_other split: option.splits)
  from Cons.prems len same
  have "foldl (\<lambda>a it. refresh_item P it a) ?vs1 its ! i = ?vs1 ! i"
    by (intro Cons.IH) simp_all
  with same show ?case by simp
qed

section \<open>What a refresh keeps\<close>

text \<open>
  C5. A successful refresh returns a sequence of the same length with the same identifiers
  at the same positions, and a record whose identifier no returned detail item carries is
  returned unchanged.
\<close>

theorem refresh_keeps_unreturned:
  assumes "updateExistingVideos P videos w = (Inr videos', w')"
  shows "length videos' = length videos \<and> map ID videos' = map ID videos \<and>
     (\<forall>i < length videos.
        (\<forall>it \<in> set (returned_items (new_events w w')). item_id it \<noteq> Some (ID (videos ! i)))
        \<longrightarrow> videos' ! i = videos ! i)"
proof -
  from assms have "refresh_loop P 0 videos w = (Inr videos', w')"
    by (simp add: updateExistingVideos_def)
  from refresh_loop_run [OF this]
  obtain new where new: "w' = w\<lparr>trace := trace w @ new\<rparr>"
    and res: "videos' = foldl (\<lambda>a it. refresh_item P it a) videos (returned_items new)"
    by blast
  have ids: "map ID videos' = map ID videos"
    unfolding res by (rule map_ID_refresh_items)
  then have "length videos' = length videos"
    by (metis length_map)
  moreover have "videos' ! i = videos ! i"
    if "i < length videos"
      and "\<forall>it \<in> set (returned_items (new_events w w')). item_id it \<noteq> Some (ID (videos ! i))"
    for i
    using that unfolding res new by (simp add: refresh_items_nth_unreturned)
  ultimately show ?thesis
    using ids by blast
qed

section \<open>Sizes of the detail requests\<close>

text \<open>
  C7. Every detail request that the fetcher or the refresher issues carries between 1 and
  50 identifiers, whatever the outcome of the run; a fetch that discovers no new record
  issues no detail request.
\<close>

theorem detail_request_sizes:
  "(getNewVideos P fuel ch known w = Some (r, w') \<longrightarrow>
      (\<forall>ids \<in> set (detail_requests (new_events w w')). 0 < length ids \<and> length ids \<le> 50) \<and>
      (r = Inr [] \<longrightarrow> detail_requests (new_events w w') = [])) \<and>
   (updateExistingVideos P videos w = (r2, w2) \<longrightarrow>
      (\<forall>ids \<in> set (detail_requests (new_events w w2)). 0 < length ids \<and> length ids \<le> 50))"
proof (intro conjI impI)
  assume "getNewVideos P fuel ch known w = Some (r, w')"
  from getNewVideos_run [OF this]
  obtain new where new: "w' = w\<lparr>trace := trace w @ new\<rparr>"
    "\<forall>ids \<in> set (detail_requests new). 0 < length ids \<and> length ids \<le> 50"
    "\<forall>vs. r = Inr vs \<longrightarrow> (vs = [] \<longrightarrow> detail_requests new = [])"
    by blast
  show "\<forall>ids \<in> set (detail_requests (new_events w w')). 0 < length ids \<and> length ids \<le> 50"
    using new(2) unfolding new(1) by simp
  show "detail_requests (new_events w w') = []" if "r = Inr []"
    using new(3) that unfolding new(1) by simp
next
  assume "updateExistingVideos P videos w = (r2, w2)"
  then have "refresh_loop P 0 videos w = (r2, w2)"
    by (simp add: updateExistingVideos_def)
  from refresh_loop_run [OF this]
  obtain new where new: "w2 = w\<lparr>trace := trace w @ new\<rparr>"
    "\<forall>ids \<in> set (detail_requests new). 0 < length ids \<and> length ids \<le> 50"
    by blast
  show "\<forall>ids \<in> set (detail_requests (new_events w w2)). 0 < length ids \<and> length ids \<le> 50"
    using new(2) unfolding new(1) by simp
qed

lemma pending_push_new: "pending k (push_new known its)"
  by (auto simp: pending_def push_new_def provisional_def)

lemma pending_hydrate_item:
  assumes "pending k vs" and "item_id it = Some k \<longrightarrow> contentDetails it = None"
  shows "pending k (hydrate_item P it vs)"
proof (cases "contentDetails it")
  case None
  with assms(1) show ?thesis by (simp add: hydrate_item_def)
next
  case (Some cd)
  with assms(2) have "item_id it \<noteq> Some k" by auto
  then show ?thesis
    using assms(1) Some set_update_first [of "\<lambda>v. Some (ID v) = item_id it" _ vs]
    unfolding pending_def hydrate_item_def by (auto; fastforce)
qed

lemma pending_hydrate_items:
  "pending k vs \<Longrightarrow> \<forall>it \<in> set its. item_id it = Some k \<longrightarrow> contentDetails it = None \<Longrightarrow>
   pending k (foldl (\<lambda>a it. hydrate_item P it a) vs its)"
  by (induction its arbitrary: vs) (simp_all add: pending_hydrate_item)

section \<open>Hydration without content details\<close>

text \<open>
  C10. A newly discovered record for which every returned detail item with its identifier
  lacks \<open>contentDetails\<close> keeps the empty duration and absent counts, whether or not
  the items carry statistics.
\<close>

theorem hydration_needs_contentDetails:
  assumes "getNewVideos P fuel ch known w = Some (Inr newVideos, w')"
    and "v \<in> set newVideos"
    and "\<forall>it \<in> set (returned_items (new_events w w')).
           item_id it = Some (ID v) \<longrightarrow> contentDetails it = None"
  shows "Duration v = [] \<and> ViewCount v = None \<and> LikeCount v = None"
proof -
  from getNewVideos_run [OF assms(1)]
  obtain new where new: "w' = w\<lparr>trace := trace w @ new\<rparr>"
    and res: "newVideos = foldl (\<lambda>a it. hydrate_item P it a)
                (push_new known (listed_items new)) (returned_items new)"
    by blast
  from assms(3) have "\<forall>it \<in> set (returned_items new).
      item_id it = Some (ID v) \<longrightarrow> contentDetails it = None"
    unfolding new by simp
  then have "pending (ID v) newVideos"
    unfolding res by (intro pending_hydrate_items pending_push_new)
  with assms(2) show ?thesis
    by (simp add: pending_def)
qed

section \<open>Loading a missing or unreadable file\<close>

text \<open>
  C8. \<open>readCsvFile\<close> returns the empty sequence when the file is missing (the read
  fails with code ENOENT), hands any other read error to its caller, and parses the
  content otherwise.
\<close>

theorem readCsvFile_missing_file:
  "(fs w p = Missing \<longrightarrow> readCsvFile P p w = Inr []) \<and>
   (readFile w p = Inl e \<and> code e = Some (js ''ENOENT'') \<longrightarrow> readCsvFile P p w = Inr []) \<and>
   (readFile w p = Inl e \<and> code e \<noteq> Some (js ''ENOENT'') \<longrightarrow> readCsvFile P p w = Inl e) \<and>
   (readFile w p = Inr c \<longrightarrow> readCsvFile P p w = csv_parse P c)"
  by (simp add: readCsvFile_def readFile_def ENOENT_def)

section \<open>No write after a failure\<close>

text \<open>
  C9. When the load, the fetch or the refresh throws, the run ends with that error in
  the \<open>catch\<close>, has written no file, and leaves the file system as it was.
\<close>

theorem no_write_after_failure:
  assumes "readCsvFile P filePath_const w = Inl e \<or>
     (\<exists>existing. readCsvFile P filePath_const w = Inr existing \<and>
        ((\<exists>w1. getNewVideos P fuel channelId_const (set (map ID existing)) w = Some (Inl e, w1)) \<or>
         (\<exists>newVideos w1 w2.
            getNewVideos P fuel channelId_const (set (map ID existing)) w = Some (Inr newVideos, w1) \<and>
            updateExistingVideos P existing w1 = (Inl e, w2))))"
  shows "\<exists>w'. main_try P fuel w = Some (Inl e, w') \<and> main P fuel w = Some w' \<and>
     fs w' = fs w \<and> file_writes (new_events w w') = []"
proof -
  consider (load) "readCsvFile P filePath_const w = Inl e"
    | (fetch) existing w1 where "readCsvFile P filePath_const w = Inr existing"
        "getNewVideos P fuel channelId_const (set (map ID existing)) w = Some (Inl e, w1)"
    | (refresh) existing newVideos w1 w2 where "readCsvFile P filePath_const w = Inr existing"
        "getNewVideos P fuel channelId_const (set (map ID existing)) w = Some (Inr newVideos, w1)"
        "updateExistingVideos P existing w1 = (Inl e, w2)"
    using assms by blast
  then show ?thesis
  proof cases
    case load
    then have "main_try P fuel w = Some (Inl e, w)"
      by (simp add: main_try_def)
    then show ?thesis
      by (simp add: main_def new_events_def file_writes_def)
  next
    case fetch
    then have m: "main_try P fuel w = Some (Inl e, w1)"
      by (simp add: main_try_def)
    from getNewVideos_run [OF fetch(2)]
    obtain new where "w1 = w\<lparr>trace := trace w @ new\<rparr>" "file_writes new = []"
      by blast
    with m show ?thesis
      by (simp add: main_def)
  next
    case refresh
    then have m: "main_try P fuel w = Some (Inl e, w2)"
      by (simp add: main_try_def)
    from getNewVideos_run [OF refresh(2)]
    obtain new1 where new1: "w1 = w\<lparr>trace := trace w @ new1\<rparr>" "file_writes new1 = []"
      by blast
    from refresh(3) have "refresh_loop P 0 existing w1 = (Inl e, w2)"
      by (simp add: updateExistingVideos_def)
    from refresh_loop_run [OF this]
    obtain new2 where new2: "w2 = w1\<lparr>trace := trace w1 @ new2\<rparr>" "file_writes new2 = []"
      by blast
    have "w2 = w\<lparr>trace := trace w @ (new1 @ new2)\<rparr>"
      using new1(1) new2(1) by simp
    moreover have "file_writes (new1 @ new2) = []"
      using new1(2) new2(2) by (simp add: trace_append)
    ultimately show ?thesis
      using m by (simp add: main_def del: append_assoc)
  qed
qed

section \<open>The scenario, evaluated\<close>

lemmas scenario_defs =
  scenario_platform_def rows_platform_def scenario_search_def scenario_world_def
  scenario_details_def scenario_catalog_def video_a_def video_b_def video_c_def
  missing_world_def denied_world_def failing_details_def statistics_only_def
  decimal_def date_table_def js_def List.map_filter_def
  as_read_def text_of_count_def number_text_def digits_of.simps

lemmas run_defs =
  main_def main_try_def readCsvFile_def readFile_def writeFile_def getNewVideos_def
  updateExistingVideos_def hydrate_loop.simps refresh_loop.simps Let_def
  items_or_empty_def push_new_def is_new_def provisional_def or_empty_def
  for_each_item_def hydrate_item_def refresh_item_def count_or_zero_def
  allVideos_def js_sort_def compareFn_def processedVideos_def normalize_title_def
  straighten_quotes_def

lemma scenario_fetch:
  "getNewVideos scenario_platform (Suc 0) channelId_const {js ''a''} scenario_world =
     Some (Inr [video_b],
       scenario_world\<lparr>trace := [SearchList channelId_const None (scenario_search None),
         VideosList hydrate_parts [js ''b''] (scenario_details [js ''b''])]\<rparr>)"
  by (simp add: run_defs scenario_defs)

lemma scenario_fetch_known:
  "getNewVideos scenario_platform (Suc 0) channelId_const {js ''a'', js ''b''} scenario_world =
     Some (Inr [],
       scenario_world\<lparr>trace := [SearchList channelId_const None (scenario_search None)]\<rparr>)"
  by (simp add: run_defs scenario_defs)

lemma scenario_refresh:
  "updateExistingVideos scenario_platform [video_a, video_c] scenario_world =
     (Inr [video_a\<lparr>ViewCount := Some (Num 7)\<rparr>, video_c],
      scenario_world\<lparr>trace := [VideosList refresh_parts [js ''a'', js ''c'']
         (scenario_details [js ''a'', js ''c''])]\<rparr>)"
  by (simp add: run_defs scenario_defs)

theorem refresh_keeps_unreturned_witness:
  "updateExistingVideos scenario_platform [video_a, video_c] scenario_world =
     (Inr [video_a\<lparr>ViewCount := Some (Num 7)\<rparr>, video_c],
      scenario_world\<lparr>trace := [VideosList refresh_parts [js ''a'', js ''c'']
         (scenario_details [js ''a'', js ''c''])]\<rparr>) \<and>
   map item_id (returned_items (new_events scenario_world
      (scenario_world\<lparr>trace := [VideosList refresh_parts [js ''a'', js ''c'']
         (scenario_details [js ''a'', js ''c''])]\<rparr>))) = [Some (js ''a'')] \<and>
   Some (js ''a'') \<noteq> Some (ID ([video_a, video_c] ! 1)) \<and>
   (1::nat) < length [video_a, video_c] \<and>
   map ID [video_a\<lparr>ViewCount := Some (Num 7)\<rparr>, video_c] = map ID [video_a, video_c] \<and>
   [video_a\<lparr>ViewCount := Some (Num 7)\<rparr>, video_c] ! 1 = [video_a, video_c] ! 1"
  using refresh_keeps_unreturned [OF scenario_refresh] scenario_refresh
  by (simp add: new_events_def returned_items_def scenario_defs)

theorem detail_request_sizes_witness:
  "getNewVideos scenario_platform (Suc 0) channelId_const {js ''a'', js ''b''} scenario_world =
     Some (Inr [],
       scenario_world\<lparr>trace := [SearchList channelId_const None (scenario_search None)]\<rparr>) \<and>
   updateExistingVideos scenario_platform [video_a, video_c] scenario_world =
     (Inr [video_a\<lparr>ViewCount := Some (Num 7)\<rparr>, video_c],
      scenario_world\<lparr>trace := [VideosList refresh_parts [js ''a'', js ''c'']
         (scenario_details [js ''a'', js ''c''])]\<rparr>) \<and>
   detail_requests (new_events scenario_world
      (scenario_world\<lparr>trace := [SearchList channelId_const None (scenario_search None)]\<rparr>)) = [] \<and>
   detail_requests (new_events scenario_world
      (scenario_world\<lparr>trace := [VideosList refresh_parts [js ''a'', js ''c'']
         (scenario_details [js ''a'', js ''c''])]\<rparr>)) = [[js ''a'', js ''c'']] \<and>
   length [js ''a'', js ''c''] \<le> 50"
  using detail_request_sizes [of scenario_platform "Suc 0" channelId_const "{js ''a'', js ''b''}"
      scenario_world "Inr []"
      "scenario_world\<lparr>trace := [SearchList channelId_const None (scenario_search None)]\<rparr>"
      "[video_a, video_c]" "Inr [video_a\<lparr>ViewCount := Some (Num 7)\<rparr>, video_c]"
      "scenario_world\<lparr>trace := [VideosList refresh_parts [js ''a'', js ''c'']
         (scenario_details [js ''a'', js ''c''])]\<rparr>"]
    scenario_fetch_known scenario_refresh
  by (simp add: new_events_def detail_requests_def scenario_world_def)

lemma statistics_only_fetch:
  "getNewVideos (rows_platform scenario_search statistics_only) (Suc 0) channelId_const
       {js ''a''} scenario_world =
     Some (Inr [video_b\<lparr>Duration := [], ViewCount := None, LikeCount := None\<rparr>],
       scenario_world\<lparr>trace := [SearchList channelId_const None (scenario_search None),
         VideosList hydrate_parts [js ''b''] (statistics_only [js ''b''])]\<rparr>)"
  by (simp add: run_defs scenario_defs)

theorem hydration_needs_contentDetails_witness:
  "getNewVideos (rows_platform scenario_search statistics_only) (Suc 0) channelId_const
       {js ''a''} scenario_world =
     Some (Inr [video_b\<lparr>Duration := [], ViewCount := None, LikeCount := None\<rparr>],
       scenario_world\<lparr>trace := [SearchList channelId_const None (scenario_search None),
         VideosList hydrate_parts [js ''b''] (statistics_only [js ''b''])]\<rparr>) \<and>
   map contentDetails (returned_items (new_events scenario_world
       (scenario_world\<lparr>trace := [SearchList channelId_const None (scenario_search None),
         VideosList hydrate_parts [js ''b''] (statistics_only [js ''b''])]\<rparr>))) = [None] \<and>
   map (map_option viewCount \<circ> statistics) (returned_items (new_events scenario_world
       (scenario_world\<lparr>trace := [SearchList channelId_const None (scenario_search None),
         VideosList hydrate_parts [js ''b''] (statistics_only [js ''b''])]\<rparr>))) =
     [Some (Some (js ''10''))] \<and>
   Duration (video_b\<lparr>Duration := [], ViewCount := None, LikeCount := None\<rparr>) = [] \<and>
   ViewCount (video_b\<lparr>Duration := [], ViewCount := None, LikeCount := None\<rparr>) = None \<and>
   LikeCount (video_b\<lparr>Duration := [], ViewCount := None, LikeCount := None\<rparr>) = None"
  using hydration_needs_contentDetails [OF statistics_only_fetch,
      of "video_b\<lparr>Duration := [], ViewCount := None, LikeCount := None\<rparr>"]
    statistics_only_fetch
  by (simp add: new_events_def returned_items_def scenario_world_def statistics_only_def)

theorem readCsvFile_missing_file_witness:
  "fs missing_world filePath_const = Missing \<and>
   readFile missing_world filePath_const = Inl ENOENT \<and> code ENOENT = Some (js ''ENOENT'') \<and>
   readCsvFile scenario_platform filePath_const missing_world = Inr [] \<and>
   readFile denied_world filePath_const = Inl EACCES \<and> code EACCES \<noteq> Some (js ''ENOENT'') \<and>
   readCsvFile scenario_platform filePath_const denied_world = Inl EACCES \<and>
   readFile scenario_world filePath_const = Inr [video_a] \<and>
   readCsvFile scenario_platform filePath_const scenario_world = Inr [as_read video_a]"
  using readCsvFile_missing_file [of missing_world filePath_const scenario_platform ENOENT "[]"]
    readCsvFile_missing_file [of denied_world filePath_const scenario_platform EACCES "[]"]
    readCsvFile_missing_file [of scenario_world filePath_const scenario_platform ENOENT "[video_a]"]
  by (simp add: readFile_def missing_world_def denied_world_def scenario_world_def ENOENT_def
      EACCES_def js_def scenario_platform_def rows_platform_def)

lemma failing_fetch:
  "getNewVideos (rows_platform scenario_search failing_details) (Suc 0) channelId_const
       (set (map ID [as_read video_a])) scenario_world =
     Some (Inl quota_error,
       scenario_world\<lparr>trace := [SearchList channelId_const None (scenario_search None),
         VideosList hydrate_parts [js ''b''] (Inl quota_error)]\<rparr>)"
  by (simp add: run_defs scenario_defs)

lemma scenario_load:
  "readCsvFile (rows_platform search details) filePath_const scenario_world =
     Inr [as_read video_a]"
  by (simp add: readCsvFile_def readFile_def scenario_world_def rows_platform_def)

lemma failing_run:
  "main_try (rows_platform scenario_search failing_details) (Suc 0) scenario_world =
     Some (Inl quota_error,
       scenario_world\<lparr>trace := [SearchList channelId_const None (scenario_search None),
         VideosList hydrate_parts [js ''b''] (Inl quota_error)]\<rparr>)"
  by (simp add: main_try_def scenario_load failing_fetch [simplified])

theorem no_write_after_failure_witness:
  "readCsvFile (rows_platform scenario_search failing_details) filePath_const scenario_world =
     Inr [as_read video_a] \<and>
   getNewVideos (rows_platform scenario_search failing_details) (Suc 0) channelId_const
       (set (map ID [as_read video_a])) scenario_world =
     Some (Inl quota_error,
       scenario_world\<lparr>trace := [SearchList channelId_const None (scenario_search None),
         VideosList hydrate_parts [js ''b''] (Inl quota_error)]\<rparr>) \<and>
   main (rows_platform scenario_search failing_details) (Suc 0) scenario_world =
     Some (scenario_world\<lparr>trace := [SearchList channelId_const None (scenario_search None),
         VideosList hydrate_parts [js ''b''] (Inl quota_error)]\<rparr>) \<and>
   fs (scenario_world\<lparr>trace := [SearchList channelId_const None (scenario_search None),
         VideosList hydrate_parts [js ''b''] (Inl quota_error)]\<rparr>) filePath_const =
     Content [video_a]"
  using no_write_after_failure [of "rows_platform scenario_search failing_details"
      scenario_world quota_error "Suc 0"]
    scenario_load [of scenario_search failing_details] failing_fetch failing_run
  by (auto simp: main_def scenario_world_def)

section \<open>Sorting\<close>

lemma set_insert_sorted: "set (insert_sorted c x ys) = insert x (set ys)"
  by (induction ys) auto

lemma set_js_sort: "set (js_sort c xs) = set xs"
  by (induction xs) (simp_all add: js_sort_def set_insert_sorted)

lemma length_js_sort: "length (js_sort c xs) = length xs"
proof -
  have "length (insert_sorted c x ys) = Suc (length ys)" for x ys
    by (induction ys) auto
  then show ?thesis
    by (induction xs) (simp_all add: js_sort_def)
qed

lemma distinct_map_insert_sorted:
  "distinct (map f (insert_sorted c x ys)) = (f x \<notin> f ` set ys \<and> distinct (map f ys))"
  by (induction ys) (auto simp: set_insert_sorted)

lemma distinct_map_js_sort: "distinct (map f (js_sort c xs)) = distinct (map f xs)"
  by (induction xs) (simp_all add: js_sort_def distinct_map_insert_sorted set_js_sort [unfolded js_sort_def])

lemma compareFn_keys:
  "Date_getTime P (Published_At a) \<noteq> None \<Longrightarrow> Date_getTime P (Published_At b) \<noteq> None \<Longrightarrow>
   compareFn P a b = time_key P a - time_key P b"
  by (auto simp: compareFn_def time_key_def)

lemma insert_sorted_insort_key:
  assumes "Date_getTime P (Published_At x) \<noteq> None"
    and "\<forall>y \<in> set ys. Date_getTime P (Published_At y) \<noteq> None"
  shows "insert_sorted (compareFn P) x ys = insort_key (time_key P) x ys"
  using assms(2)
  by (induction ys) (simp_all add: compareFn_keys [OF assms(1)])

lemma js_sort_sort_key:
  "\<forall>v \<in> set xs. Date_getTime P (Published_At v) \<noteq> None \<Longrightarrow>
   js_sort (compareFn P) xs = sort_key (time_key P) xs"
proof (induction xs)
  case Nil
  then show ?case by (simp add: js_sort_def)
next
  case (Cons x xs)
  then have "js_sort (compareFn P) xs = sort_key (time_key P) xs"
    by simp
  moreover have "\<forall>y \<in> set (sort_key (time_key P) xs). Date_getTime P (Published_At y) \<noteq> None"
    using Cons.prems by simp
  ultimately show ?case
    using Cons.prems by (simp add: js_sort_def insert_sorted_insort_key)
qed

text \<open>
  C4, amended. When the publication date of every record reads as a time, the merged sequence is
  non-increasing in that time, records of equal time keep the order they have in the
  concatenation (existing before new), and the merged sequence has the records of the
  concatenation.
\<close>

theorem allVideos_sorted_stable:
  assumes "\<forall>v \<in> set (updated @ new). Date_getTime P (Published_At v) \<noteq> None"
  shows "sorted_wrt (\<lambda>a b. \<forall>ta tb. Date_getTime P (Published_At a) = Some ta \<and>
                Date_getTime P (Published_At b) = Some tb \<longrightarrow> tb \<le> ta)
           (allVideos P updated new) \<and>
         (\<forall>t. filter (\<lambda>v. Date_getTime P (Published_At v) = Some t) (allVideos P updated new) =
              filter (\<lambda>v. Date_getTime P (Published_At v) = Some t) (updated @ new)) \<and>
         set (allVideos P updated new) = set (updated @ new) \<and>
         length (allVideos P updated new) = length (updated @ new)"
proof -
  let ?xs = "updated @ new"
  have eq: "allVideos P updated new = sort_key (time_key P) ?xs"
    unfolding allVideos_def using assms by (rule js_sort_sort_key)
  have "sorted (map (time_key P) (sort_key (time_key P) ?xs))"
    by simp
  then have "sorted_wrt (\<lambda>a b. time_key P a \<le> time_key P b) (sort_key (time_key P) ?xs)"
    by (simp add: sorted_map)
  then have sorted: "sorted_wrt (\<lambda>a b. \<forall>ta tb. Date_getTime P (Published_At a) = Some ta \<and>
                Date_getTime P (Published_At b) = Some tb \<longrightarrow> tb \<le> ta)
           (sort_key (time_key P) ?xs)"
    by (rule sorted_wrt_mono_rel [rotated]) (auto simp: time_key_def)
  have key: "(Date_getTime P (Published_At v) = Some t) = (time_key P v = - t)"
    if "v \<in> set ?xs" for v t
    using assms that by (auto simp: time_key_def)
  have stable: "filter (\<lambda>v. Date_getTime P (Published_At v) = Some t) (sort_key (time_key P) ?xs) =
      filter (\<lambda>v. Date_getTime P (Published_At v) = Some t) ?xs" for t
  proof -
    have "filter (\<lambda>v. Date_getTime P (Published_At v) = Some t) (sort_key (time_key P) ?xs) =
        filter (\<lambda>v. time_key P v = - t) (sort_key (time_key P) ?xs)"
      by (rule filter_cong) (simp_all add: key)
    also have "\<dots> = filter (\<lambda>v. time_key P v = - t) ?xs"
      by (rule sort_key_stable)
    also have "\<dots> = filter (\<lambda>v. Date_getTime P (Published_At v) = Some t) ?xs"
      by (rule filter_cong) (simp_all add: key)
    finally show ?thesis .
  qed
  show ?thesis
    unfolding eq using sorted stable by simp
qed

section \<open>Refreshed counts\<close>

lemma update_first_nth_first:
  "i < length xs \<Longrightarrow> p (xs ! i) \<Longrightarrow> \<forall>j<i. \<not> p (xs ! j) \<Longrightarrow>
   update_first p f xs ! i = f (xs ! i)"
proof (induction xs arbitrary: i)
  case Nil
  then show ?case by simp
next
  case (Cons x xs)
  show ?case
  proof (cases i)
    case 0
    with Cons.prems show ?thesis by simp
  next
    case (Suc k)
    with Cons.prems have "\<not> p x" by auto
    moreover have "\<forall>j<k. \<not> p (xs ! j)"
      using Cons.prems(3) Suc by auto
    ultimately show ?thesis
      using Cons.IH [of k] Cons.prems Suc by simp
  qed
qed

lemma refresh_items_last:
  assumes "i < length vs" and "\<forall>j<i. ID (vs ! j) \<noteq> ID (vs ! i)"
    and "filter (with_statistics (ID (vs ! i))) its \<noteq> []"
    and "statistics (last (filter (with_statistics (ID (vs ! i))) its)) = Some st"
  shows "ViewCount (foldl (\<lambda>a it. refresh_item P it a) vs its ! i) =
           Some (Num (count_or_zero P (viewCount st))) \<and>
         LikeCount (foldl (\<lambda>a it. refresh_item P it a) vs its ! i) =
           Some (Num (count_or_zero P (likeCount st)))"
  using assms(3,4)
proof (induction its rule: rev_induct)
  case Nil
  then show ?case by simp
next
  case (snoc it its)
  let ?k = "ID (vs ! i)"
  let ?V = "foldl (\<lambda>a it. refresh_item P it a) vs its"
  have ids: "map ID ?V = map ID vs"
    by (rule map_ID_refresh_items)
  then have len: "length ?V = length vs"
    by (metis length_map)
  have nth: "ID (?V ! j) = ID (vs ! j)" if "j < length vs" for j
    using ids that len by (metis nth_map)
  show ?case
  proof (cases "with_statistics ?k it")
    case True
    with snoc.prems have st: "statistics it = Some st" and id: "item_id it = Some ?k"
      by (simp_all add: with_statistics_def)
    have "update_first (\<lambda>v. Some (ID v) = item_id it)
            (\<lambda>v. v\<lparr>ViewCount := Some (Num (count_or_zero P (viewCount st))),
                   LikeCount := Some (Num (count_or_zero P (likeCount st)))\<rparr>) ?V ! i =
          (?V ! i)\<lparr>ViewCount := Some (Num (count_or_zero P (viewCount st))),
                   LikeCount := Some (Num (count_or_zero P (likeCount st)))\<rparr>"
      using assms(1,2) len nth id
      by (intro update_first_nth_first) auto
    then show ?thesis
      by (simp add: refresh_item_def st)
  next
    case False
    with snoc.prems have its: "filter (with_statistics ?k) its \<noteq> []"
      "statistics (last (filter (with_statistics ?k) its)) = Some st"
      by simp_all
    have "refresh_item P it ?V ! i = ?V ! i"
    proof (cases "statistics it")
      case None
      then show ?thesis by (simp add: refresh_item_def)
    next
      case (Some s)
      with False have "item_id it \<noteq> Some ?k"
        by (simp add: with_statistics_def)
      then have "\<not> Some (ID (?V ! i)) = item_id it"
        using nth [OF assms(1)] by auto
      then show ?thesis
        using assms(1) len by (simp add: refresh_item_def Some update_first_nth_other)
    qed
    with snoc.IH [OF its] show ?thesis
      by simp
  qed
qed

text \<open>
  What a refresh overwrites: after a successful refresh, the first record with a given
  identifier has the view and like counts of the last returned detail item that carries
  this identifier and statistics, each read with \<open>Number(...) || 0\<close>.
\<close>

lemma refresh_overwrites_counts:
  assumes "updateExistingVideos P videos w = (Inr videos', w')"
    and "i < length videos"
    and "\<forall>j<i. ID (videos ! j) \<noteq> ID (videos ! i)"
    and "filter (with_statistics (ID (videos ! i))) (returned_items (new_events w w')) \<noteq> []"
    and "statistics (last (filter (with_statistics (ID (videos ! i)))
           (returned_items (new_events w w')))) = Some st"
  shows "ViewCount (videos' ! i) = Some (Num (count_or_zero P (viewCount st))) \<and>
         LikeCount (videos' ! i) = Some (Num (count_or_zero P (likeCount st)))"
proof -
  from assms(1) have "refresh_loop P 0 videos w = (Inr videos', w')"
    by (simp add: updateExistingVideos_def)
  from refresh_loop_run [OF this]
  obtain new where new: "w' = w\<lparr>trace := trace w @ new\<rparr>"
    and res: "videos' = foldl (\<lambda>a it. refresh_item P it a) videos (returned_items new)"
    by blast
  from assms(4,5) show ?thesis
    unfolding res new new_events_append by (rule refresh_items_last [OF assms(2,3)])
qed

text \<open>What a refresh never touches: the durations.\<close>

lemma Duration_refresh_items:
  "map Duration (foldl (\<lambda>a it. refresh_item P it a) vs its) = map Duration vs"
proof (induction its arbitrary: vs)
  case Nil
  then show ?case by simp
next
  case (Cons it its)
  have "map Duration (refresh_item P it vs) = map Duration vs"
    by (simp add: refresh_item_def map_update_first split: option.splits)
  with Cons.IH [of "refresh_item P it vs"] show ?case
    by simp
qed

lemma refresh_keeps_durations:
  assumes "updateExistingVideos P videos w = (Inr videos', w')"
  shows "map Duration videos' = map Duration videos"
proof -
  from assms have "refresh_loop P 0 videos w = (Inr videos', w')"
    by (simp add: updateExistingVideos_def)
  from refresh_loop_run [OF this]
  obtain new where "w' = w\<lparr>trace := trace w @ new\<rparr>"
    and "videos' = foldl (\<lambda>a it. refresh_item P it a) videos (returned_items new)"
    by blast
  then show ?thesis
    by (simp add: Duration_refresh_items)
qed

section \<open>Identifiers of the saved records\<close>

lemma map_ID_push_new:
  "map ID (push_new known its) = filter (\<lambda>v. v \<notin> known) (listed_ids its)"
  by (induction its)
    (auto simp: push_new_def is_new_def provisional_def or_empty_def listed_ids_def
      List.map_filter_simps split: option.splits)

lemma map_ID_processedVideos: "map ID (processedVideos P vs) = map ID vs"
  by (simp add: processedVideos_def comp_def)

lemma main_try_success:
  assumes "main_try P fuel w = Some (Inr out, w')"
  shows "\<exists>existing new1 new2 updated newVideos.
     readCsvFile P filePath_const w = Inr existing \<and>
     getNewVideos P fuel channelId_const (set (map ID existing)) w =
       Some (Inr newVideos, w\<lparr>trace := trace w @ new1\<rparr>) \<and>
     updateExistingVideos P existing (w\<lparr>trace := trace w @ new1\<rparr>) =
       (Inr updated, w\<lparr>trace := trace w @ new1 @ new2\<rparr>) \<and>
     newVideos = foldl (\<lambda>a it. hydrate_item P it a)
        (push_new (set (map ID existing)) (listed_items new1)) (returned_items new1) \<and>
     updated = foldl (\<lambda>a it. refresh_item P it a) existing (returned_items new2) \<and>
     listed_items new2 = [] \<and>
     out = processedVideos P (allVideos P updated newVideos) \<and>
     w' = writeFile filePath_const (csv_stringify P out) (w\<lparr>trace := trace w @ new1 @ new2\<rparr>)"
proof -
  from assms obtain existing where load: "readCsvFile P filePath_const w = Inr existing"
    by (auto simp: main_try_def split: sum.splits)
  from assms load obtain newVideos w1
    where fetch: "getNewVideos P fuel channelId_const (set (map ID existing)) w =
        Some (Inr newVideos, w1)"
    by (auto simp: main_try_def split: option.splits sum.splits prod.splits)
  from assms load fetch obtain updated w2
    where refresh: "updateExistingVideos P existing w1 = (Inr updated, w2)"
    by (auto simp: main_try_def split: sum.splits prod.splits)
  from assms load fetch refresh
  have out: "out = processedVideos P (allVideos P updated newVideos)"
    and w': "w' = writeFile filePath_const (csv_stringify P out) w2"
    by (auto simp: main_try_def Let_def)
  from getNewVideos_run [OF fetch]
  obtain new1 where new1: "w1 = w\<lparr>trace := trace w @ new1\<rparr>"
    "newVideos = foldl (\<lambda>a it. hydrate_item P it a)
        (push_new (set (map ID existing)) (listed_items new1)) (returned_items new1)"
    by blast
  from refresh have "refresh_loop P 0 existing w1 = (Inr updated, w2)"
    by (simp add: updateExistingVideos_def)
  from refresh_loop_run [OF this]
  obtain new2 where new2: "w2 = w1\<lparr>trace := trace w1 @ new2\<rparr>" "listed_items new2 = []"
    "updated = foldl (\<lambda>a it. refresh_item P it a) existing (returned_items new2)"
    by blast
  have w2: "w2 = w\<lparr>trace := trace w @ new1 @ new2\<rparr>"
    using new1(1) new2(1) by simp
  show ?thesis
    using load fetch refresh out w' new1 new2(2,3) w2 by blast
qed

text \<open>
  C1, amended. When the stored identifiers are pairwise distinct and the identifiers that
  the listing of the run shows and the store does not hold are pairwise distinct, the
  saved records have pairwise distinct identifiers: the stored ones and those new ones.
  An identifier that is both stored and listed appears once.
\<close>

theorem output_ids_distinct:
  assumes "main_try P fuel w = Some (Inr out, w')"
    and "readCsvFile P filePath_const w = Inr existing"
    and "distinct (map ID existing)"
    and "distinct (filter (\<lambda>v. v \<notin> set (map ID existing))
           (listed_ids (listed_items (new_events w w'))))"
  shows "distinct (map ID out) \<and>
     set (map ID out) = set (map ID existing) \<union>
       set (filter (\<lambda>v. v \<notin> set (map ID existing)) (listed_ids (listed_items (new_events w w'))))"
proof -
  from main_try_success [OF assms(1)] assms(2)
  obtain new1 new2 updated newVideos where
    new: "newVideos = foldl (\<lambda>a it. hydrate_item P it a)
        (push_new (set (map ID existing)) (listed_items new1)) (returned_items new1)"
    and upd: "updated = foldl (\<lambda>a it. refresh_item P it a) existing (returned_items new2)"
    and listed: "listed_items new2 = []"
    and out: "out = processedVideos P (allVideos P updated newVideos)"
    and w': "w' = writeFile filePath_const (csv_stringify P out) (w\<lparr>trace := trace w @ new1 @ new2\<rparr>)"
    by auto
  have ev: "new_events w w' = new1 @ new2 @ [WriteFile filePath_const (csv_stringify P out)]"
    by (simp add: w' writeFile_def new_events_def)
  have "listed_items [WriteFile filePath_const (csv_stringify P out)] = []"
    by (simp add: listed_items_def)
  then have l: "listed_items (new_events w w') = listed_items new1"
    unfolding ev by (simp add: trace_append listed)
  let ?fresh = "filter (\<lambda>v. v \<notin> set (map ID existing)) (listed_ids (listed_items new1))"
  have idn: "map ID newVideos = ?fresh"
    unfolding new by (simp add: map_ID_hydrate_items map_ID_push_new)
  have idu: "map ID updated = map ID existing"
    unfolding upd by (rule map_ID_refresh_items)
  have "distinct (map ID (updated @ newVideos))"
    using assms(3,4) unfolding l by (auto simp: idn idu)
  then have d: "distinct (map ID out)"
    by (simp only: out map_ID_processedVideos allVideos_def distinct_map_js_sort)
  have "set (map ID out) = set (map ID (updated @ newVideos))"
    by (simp only: out map_ID_processedVideos allVideos_def set_map set_js_sort)
  then have "set (map ID out) = set (map ID existing) \<union> set ?fresh"
    by (simp add: idn idu)
  with d show ?thesis
    unfolding l by simp
qed

section \<open>The scenario, evaluated further\<close>

lemmas scenario_defs2 = scenario_defs saved_file_def item_b_def dup_search_def
  video_y_def changed_duration_item_def changed_duration_def quoted_item_def quoted_details_def
  quoted_title_def quoted_search_def video_q_def

lemma scenario_run:
  "main_try scenario_platform (Suc 0) scenario_world =
     Some (Inr [video_b, video_a\<lparr>ViewCount := Some (Num 7)\<rparr>],
       writeFile filePath_const [video_b, video_a\<lparr>ViewCount := Some (Num 7)\<rparr>]
         (scenario_world\<lparr>trace := [SearchList channelId_const None (scenario_search None),
            VideosList hydrate_parts [js ''b''] (scenario_details [js ''b'']),
            VideosList refresh_parts [js ''a''] (scenario_details [js ''a''])]\<rparr>))"
  by (simp add: run_defs scenario_defs)

theorem output_ids_distinct_witness:
  "main_try scenario_platform (Suc 0) scenario_world =
     Some (Inr [video_b, video_a\<lparr>ViewCount := Some (Num 7)\<rparr>],
       writeFile filePath_const [video_b, video_a\<lparr>ViewCount := Some (Num 7)\<rparr>]
         (scenario_world\<lparr>trace := [SearchList channelId_const None (scenario_search None),
            VideosList hydrate_parts [js ''b''] (scenario_details [js ''b'']),
            VideosList refresh_parts [js ''a''] (scenario_details [js ''a''])]\<rparr>)) \<and>
   readCsvFile scenario_platform filePath_const scenario_world = Inr [as_read video_a] \<and>
   distinct (map ID [as_read video_a]) \<and>
   listed_ids (listed_items (new_events scenario_world
     (writeFile filePath_const [video_b, video_a\<lparr>ViewCount := Some (Num 7)\<rparr>]
         (scenario_world\<lparr>trace := [SearchList channelId_const None (scenario_search None),
            VideosList hydrate_parts [js ''b''] (scenario_details [js ''b'']),
            VideosList refresh_parts [js ''a''] (scenario_details [js ''a''])]\<rparr>)))) =
     [js ''b'', js ''a''] \<and>
   distinct (map ID [video_b, video_a\<lparr>ViewCount := Some (Num 7)\<rparr>])"
proof -
  let ?w' = "writeFile filePath_const [video_b, video_a\<lparr>ViewCount := Some (Num 7)\<rparr>]
         (scenario_world\<lparr>trace := [SearchList channelId_const None (scenario_search None),
            VideosList hydrate_parts [js ''b''] (scenario_details [js ''b'']),
            VideosList refresh_parts [js ''a''] (scenario_details [js ''a''])]\<rparr>)"
  have load: "readCsvFile scenario_platform filePath_const scenario_world = Inr [as_read video_a]"
    unfolding scenario_platform_def by (rule scenario_load)
  have local: "distinct (map ID [as_read video_a])"
    by simp
  have listed: "listed_ids (listed_items (new_events scenario_world ?w')) = [js ''b'', js ''a'']"
    by (simp add: new_events_def writeFile_def listed_items_def listed_ids_def
        List.map_filter_def items_or_empty_def scenario_world_def scenario_search_def js_def)
  have "distinct (filter (\<lambda>v. v \<notin> set (map ID [as_read video_a])) [js ''b'', js ''a''])"
    by (simp add: video_a_def js_def)
  then have fresh: "distinct (filter (\<lambda>v. v \<notin> set (map ID [as_read video_a]))
      (listed_ids (listed_items (new_events scenario_world ?w'))))"
    by (simp only: listed)
  from output_ids_distinct [OF scenario_run load local fresh]
  have "distinct (map ID [video_b, video_a\<lparr>ViewCount := Some (Num 7)\<rparr>])"
    by blast
  with scenario_run load local listed show ?thesis
    by blast
qed

text \<open>
  C1 as stated fails: with one stored record \<open>a\<close> and a listing that shows
  \<open>b\<close> on two pages, the saved records hold \<open>b\<close> twice.
\<close>

theorem output_ids_distinct_counterexample:
  "readCsvFile (rows_platform dup_search scenario_details) filePath_const scenario_world =
     Inr [as_read video_a] \<and>
   distinct (map ID [as_read video_a]) \<and>
   map_option fst (main_try (rows_platform dup_search scenario_details) (Suc (Suc 0)) scenario_world) =
     Some (Inr [video_b, video_b\<lparr>Duration := [], ViewCount := None, LikeCount := None\<rparr>,
                video_a\<lparr>ViewCount := Some (Num 7)\<rparr>]) \<and>
   map ID [video_b, video_b\<lparr>Duration := [], ViewCount := None, LikeCount := None\<rparr>,
           video_a\<lparr>ViewCount := Some (Num 7)\<rparr>] = [js ''b'', js ''b'', js ''a'']"
  by (simp add: run_defs scenario_defs2)

text \<open>
  C2. The refresher is to overwrite the view count, the like count and the duration of a
  record whose identifier the detail call returns. The program overwrites the two counts
  and leaves the duration: for the stored record \<open>a\<close> (duration PT1M) and a returned
  item for \<open>a\<close> with the duration PT9M and the statistics 7 and 1, the refreshed record
  has the counts 7 and 1 and still the duration PT1M. The hydration of new records, given
  the same item, assigns PT9M.
\<close>

theorem refresh_keeps_duration:
  "fst (updateExistingVideos (rows_platform scenario_search changed_duration) [video_a]
       scenario_world) =
     Inr [video_a\<lparr>ViewCount := Some (Num 7)\<rparr>] \<and>
   returned_items (new_events scenario_world
     (snd (updateExistingVideos (rows_platform scenario_search changed_duration) [video_a]
        scenario_world))) = [changed_duration_item] \<and>
   item_id changed_duration_item = Some (ID video_a) \<and>
   Option.bind (contentDetails changed_duration_item) duration = Some (js ''PT9M'') \<and>
   Duration video_a = js ''PT1M'' \<and>
   Duration (video_a\<lparr>ViewCount := Some (Num 7)\<rparr>) = js ''PT1M'' \<and>
   hydrate_item (rows_platform scenario_search changed_duration) changed_duration_item [video_a] =
     [video_a\<lparr>Duration := js ''PT9M'', ViewCount := Some (Num 7)\<rparr>]"
  by (simp add: run_defs scenario_defs2 new_events_def returned_items_def)

theorem allVideos_sorted_stable_witness:
  "Date_getTime scenario_platform (Published_At video_a) = Some 1577836800000 \<and>
   Date_getTime scenario_platform (Published_At (video_a\<lparr>ID := js ''d''\<rparr>)) = Some 1577836800000 \<and>
   Date_getTime scenario_platform (Published_At video_b) = Some 1609459200000 \<and>
   allVideos scenario_platform [video_a, video_a\<lparr>ID := js ''d''\<rparr>] [video_b] =
     [video_b, video_a, video_a\<lparr>ID := js ''d''\<rparr>] \<and>
   filter (\<lambda>v. Date_getTime scenario_platform (Published_At v) = Some 1577836800000)
     (allVideos scenario_platform [video_a, video_a\<lparr>ID := js ''d''\<rparr>] [video_b]) =
     [video_a, video_a\<lparr>ID := js ''d''\<rparr>]"
  using allVideos_sorted_stable [of "[video_a, video_a\<lparr>ID := js ''d''\<rparr>]" "[video_b]"
      scenario_platform]
  by (simp add: run_defs scenario_defs)

text \<open>
  C4 as stated fails: with the record \<open>y\<close>, whose date does not read as a time, between
  \<open>a\<close> (2020) and \<open>c\<close> (2022), every comparison that the sort makes returns NaN and
  the merged sequence stays as it is, \<open>a\<close> before the newer \<open>c\<close>.
\<close>

theorem allVideos_sorted_stable_counterexample:
  "allVideos scenario_platform [video_a] [video_y, video_c] = [video_a, video_y, video_c] \<and>
   Date_getTime scenario_platform (Published_At video_a) = Some 1577836800000 \<and>
   Date_getTime scenario_platform (Published_At video_y) = None \<and>
   Date_getTime scenario_platform (Published_At video_c) = Some 1640995200000"
  by (simp add: run_defs scenario_defs2)

text \<open>
  A record that the detail call does not know is saved without counts by the run that
  discovers it, and with the empty texts that the parser returns for them by the next run.
\<close>

lemma second_run_without_statistics:
  "map_option saved_file
     (main (rows_platform scenario_search (\<lambda>ids. Inr (Some []))) (Suc 0) missing_world) =
     Some (Content [video_b\<lparr>Duration := [], ViewCount := None, LikeCount := None\<rparr>,
                    video_a\<lparr>Duration := [], ViewCount := None, LikeCount := None\<rparr>]) \<and>
   map_option saved_file
     (Option.bind (main (rows_platform scenario_search (\<lambda>ids. Inr (Some []))) (Suc 0) missing_world)
        (main (rows_platform scenario_search (\<lambda>ids. Inr (Some []))) (Suc 0))) =
     Some (Content [video_b\<lparr>Duration := [], ViewCount := Some (Str []), LikeCount := Some (Str [])\<rparr>,
                    video_a\<lparr>Duration := [], ViewCount := Some (Str []), LikeCount := Some (Str [])\<rparr>])"
  by (simp add: run_defs scenario_defs2 ENOENT_def entity_table_def)


section \<open>A second run against a fixed remote\<close>


lemma ID_refreshed_by [simp]: "ID (refreshed_by P cat v) = ID v"
  by (simp add: refreshed_by_def split: option.splits)

lemma ID_hydrated_by [simp]: "ID (hydrated_by P cat v) = ID v"
  by (simp add: hydrated_by_def split: option.splits)

lemma refreshed_by_idem [simp]: "refreshed_by P cat (refreshed_by P cat v) = refreshed_by P cat v"
  by (simp add: refreshed_by_def split: option.splits)

lemma hydrated_by_idem [simp]: "hydrated_by P cat (hydrated_by P cat v) = hydrated_by P cat v"
  by (simp add: hydrated_by_def split: option.splits)


























end
